theory Spec2Isabelle
  imports Main
begin

section \<open>Data model (types.ts)\<close>

text \<open>
  A JavaScript string is a sequence of UTF-16 code units; the program compares strings
  with \<open>===\<close> and searches them with \<open>includes\<close>, both of which work on code units.
  Timestamps (\<open>Date.now()\<close>) and counters are natural numbers. An optional field
  (\<open>lastLogin?\<close>, \<open>loginCount?\<close>, \<open>timestamp?\<close>) is an \<open>option\<close>: \<open>None\<close> is
  \<open>undefined\<close>.
\<close>

type_synonym jstring = "nat list"

datatype UserRole = Student | Coach

record User =
  uid :: jstring
  username :: jstring
  passwordHash :: jstring
  name :: jstring
  role :: UserRole
  isFirstLogin :: bool
  lastLogin :: "nat option"
  loginCount :: "nat option"

datatype Sender = SenderUser | SenderAI

record Attachment =
  isImage :: bool
  mimeType :: jstring
  adata :: jstring
  aname :: jstring
  isText :: "bool option"

record Message =
  mid :: jstring
  sender :: Sender
  text_of :: jstring
  attachment :: "Attachment option"

datatype Difficulty = Easy | Medium | Hard

record Problem =
  pid :: jstring
  topic :: jstring
  content :: jstring
  source :: "jstring option"
  feynmanExplanation :: "jstring option"
  standardSolution :: "jstring option"
  difficulty :: Difficulty
  timestamp :: "nat option"
  chatHistory :: "Message list option"

datatype AppState =
  Login | ChangePassword | TopicSelection | ProblemActive | MistakeNotebook
  | CoachDashboard | CoachAnalytics

record UserData =
  userId :: jstring
  mistakes :: "Problem list"

section \<open>The key-value store (localStorage) and the credential store (authService)\<close>

text \<open>
  The four keys the service uses. A key that was never written is \<open>None\<close>
  (\<open>getItem\<close> returns \<open>null\<close>); the per-user last-session keys are a map from the
  user id.
\<close>

record Storage =
  USERS_KEY :: "User list option"
  DATA_KEY :: "UserData list option"
  CURRENT_USER_KEY :: "User option"
  LAST_SESSION :: "jstring \<rightharpoonup> Problem"

datatype error = UserNotExist | WrongPassword | UserNotFound

text \<open>\<open>Array.prototype.findIndex\<close>: the first index whose element satisfies the test;
  \<open>None\<close> is the source's \<open>-1\<close>.\<close>

fun findIndex :: "('a \<Rightarrow> bool) \<Rightarrow> 'a list \<Rightarrow> nat option" where
  "findIndex P [] = None"
| "findIndex P (x # xs) = (if P x then Some 0 else map_option Suc (findIndex P xs))"

definition getDBUsers :: "Storage \<Rightarrow> User list" where
  "getDBUsers st = (case USERS_KEY st of Some us \<Rightarrow> us | None \<Rightarrow> [])"

definition saveDBUsers :: "User list \<Rightarrow> Storage \<Rightarrow> Storage" where
  "saveDBUsers us st = st\<lparr>USERS_KEY := Some us\<rparr>"

definition getDBData :: "Storage \<Rightarrow> UserData list" where
  "getDBData st = (case DATA_KEY st of Some d \<Rightarrow> d | None \<Rightarrow> [])"

definition saveDBData :: "UserData list \<Rightarrow> Storage \<Rightarrow> Storage" where
  "saveDBData d st = st\<lparr>DATA_KEY := Some d\<rparr>"

text \<open>
  \<open>hashPassword\<close> is the SHA-256 digest of the platform (\<open>crypto.subtle\<close>), rendered in
  hexadecimal. The service only ever compares digests for equality, so the digest is a
  parameter \<open>H\<close> of every operation that hashes; \<open>now\<close> is the value \<open>Date.now()\<close>
  returns during the call.
\<close>

definition login ::
  "(jstring \<Rightarrow> jstring) \<Rightarrow> nat \<Rightarrow> jstring \<Rightarrow> jstring \<Rightarrow> Storage
    \<Rightarrow> error + (Storage \<times> User \<times> nat option)" where
  "login H now uname password st =
     (let users = getDBUsers st in
      case findIndex (\<lambda>u. username u = uname) users of
        None \<Rightarrow> Inl UserNotExist
      | Some userIndex \<Rightarrow>
          (let user = users ! userIndex;
               pHash = H password in
           if passwordHash user \<noteq> pHash then Inl WrongPassword
           else
             (let previousLogin = lastLogin user;
                  updatedUser = user\<lparr>lastLogin := Some now,
                    loginCount := Some ((case loginCount user of None \<Rightarrow> 0 | Some c \<Rightarrow> c) + 1)\<rparr>;
                  st1 = saveDBUsers (users[userIndex := updatedUser]) st;
                  st2 = st1\<lparr>CURRENT_USER_KEY := Some updatedUser\<rparr>
              in Inr (st2, updatedUser, previousLogin))))"

definition logout :: "Storage \<Rightarrow> Storage" where
  "logout st = st\<lparr>CURRENT_USER_KEY := None\<rparr>"

definition getCurrentUser :: "Storage \<Rightarrow> User option" where
  "getCurrentUser st = CURRENT_USER_KEY st"

definition updatePassword ::
  "(jstring \<Rightarrow> jstring) \<Rightarrow> jstring \<Rightarrow> jstring \<Rightarrow> Storage \<Rightarrow> error + (Storage \<times> User)" where
  "updatePassword H userId' newPassword st =
     (let users = getDBUsers st in
      case findIndex (\<lambda>u. uid u = userId') users of
        None \<Rightarrow> Inl UserNotFound
      | Some index \<Rightarrow>
          (let pHash = H newPassword;
               users1 = users[index := (users ! index)\<lparr>passwordHash := pHash\<rparr>];
               users2 = users1[index := (users1 ! index)\<lparr>isFirstLogin := False\<rparr>];
               st1 = saveDBUsers users2 st;
               st2 = st1\<lparr>CURRENT_USER_KEY := Some (users2 ! index)\<rparr>
           in Inr (st2, users2 ! index)))"

definition resetUserPasswordToUsername ::
  "(jstring \<Rightarrow> jstring) \<Rightarrow> jstring \<Rightarrow> Storage \<Rightarrow> error + Storage" where
  "resetUserPasswordToUsername H userId' st =
     (let users = getDBUsers st in
      case findIndex (\<lambda>u. uid u = userId') users of
        None \<Rightarrow> Inl UserNotFound
      | Some index \<Rightarrow>
          (let user = users ! index;
               newHash = H (username user);
               users1 = users[index := (users ! index)\<lparr>passwordHash := newHash\<rparr>];
               users2 = users1[index := (users1 ! index)\<lparr>isFirstLogin := True\<rparr>]
           in Inr (saveDBUsers users2 st)))"

text \<open>
  \<open>registerBatchUsers\<close>: the id of the entry at position \<open>i\<close> of the batch is
  \<open>mkId i\<close> (the source builds it from the clock and \<open>Math.random()\<close>). New users are
  filtered against \<open>currentUsers\<close>, the roster read at the start of the call.
\<close>

definition newUserOf :: "(jstring \<Rightarrow> jstring) \<Rightarrow> jstring \<Rightarrow> jstring \<times> jstring \<Rightarrow> User" where
  "newUserOf H i u =
     \<lparr>uid = i, username = snd u, passwordHash = H (snd u), name = fst u,
      role = Student, isFirstLogin = True, lastLogin = None, loginCount = None\<rparr>"

definition registerBatchUsers ::
  "(jstring \<Rightarrow> jstring) \<Rightarrow> (nat \<Rightarrow> jstring) \<Rightarrow> (jstring \<times> jstring) list \<Rightarrow> Storage
    \<Rightarrow> Storage \<times> nat" where
  "registerBatchUsers H mkId newUsersRaw st =
     (let currentUsers = getDBUsers st;
          newUsers = map (\<lambda>(i, u). newUserOf H (mkId i) u) (enumerate 0 newUsersRaw);
          uniqueNewUsers =
            filter (\<lambda>nu. \<not> list_ex (\<lambda>cu. username cu = username nu) currentUsers) newUsers
      in (saveDBUsers (currentUsers @ uniqueNewUsers) st, length uniqueNewUsers))"

definition getStudents :: "Storage \<Rightarrow> User list" where
  "getStudents st = filter (\<lambda>u. role u = Student) (getDBUsers st)"

definition getUserMistakes :: "jstring \<Rightarrow> Storage \<Rightarrow> Problem list" where
  "getUserMistakes userId' st =
     (case find (\<lambda>d. userId d = userId') (getDBData st) of
        Some userData \<Rightarrow> mistakes userData
      | None \<Rightarrow> [])"

definition saveUserMistakes :: "jstring \<Rightarrow> Problem list \<Rightarrow> Storage \<Rightarrow> Storage" where
  "saveUserMistakes userId' ms st =
     (let allData = getDBData st in
      case findIndex (\<lambda>d. userId d = userId') allData of
        Some index \<Rightarrow> saveDBData (allData[index := (allData ! index)\<lparr>mistakes := ms\<rparr>]) st
      | None \<Rightarrow> saveDBData (allData @ [\<lparr>userId = userId', mistakes = ms\<rparr>]) st)"


definition getLastSession :: "jstring \<Rightarrow> Storage \<Rightarrow> Problem option" where
  "getLastSession userId' st = LAST_SESSION st userId'"

section \<open>The problem provider and the topic list (types.ts, geminiService.ts)\<close>



text \<open>\<open>Number.prototype.toString\<close> on a non-negative integer: its decimal digits.\<close>

fun toString :: "nat \<Rightarrow> jstring" where
  "toString n = (if n < 10 then [48 + n] else toString (n div 10) @ [48 + n mod 10])"

declare toString.simps [simp del]

definition FALLBACK_CONTENT :: jstring where
  "FALLBACK_CONTENT =
     [29983, 25104, 39064, 30446, 26102, 36935, 21040, 38382, 39064, 65292, 35831,
      37325, 35797, 12290, 35831, 30830, 35748, 20113, 25176, 31649, 29615, 22659,
      21464, 37327, 32, 86, 73, 84, 69, 95, 65, 80, 73, 95, 75, 69, 89, 32, 24050,
      37197, 32622, 12290]"

text \<open>
  The provider's answer, once parsed: \<open>None\<close> stands for every failure of the call
  (a network error, an empty or malformed answer), which \<open>generateMathProblem\<close> catches
  and turns into the fallback problem.
\<close>

record Parsed =
  problemStatement :: jstring
  parsedSource :: jstring
  parsedFeynman :: jstring
  parsedSolution :: jstring

definition generateMathProblem :: "nat \<Rightarrow> Parsed option \<Rightarrow> jstring \<Rightarrow> Problem" where
  "generateMathProblem now response topic' =
     (case response of
        Some parsed \<Rightarrow>
          \<lparr>pid = toString now, topic = topic', content = problemStatement parsed,
           source = Some (parsedSource parsed),
           feynmanExplanation = Some (parsedFeynman parsed),
           standardSolution = Some (parsedSolution parsed),
           difficulty = Medium, timestamp = None, chatHistory = None\<rparr>
      | None \<Rightarrow>
          \<lparr>pid = toString now, topic = topic', content = FALLBACK_CONTENT,
           source = None, feynmanExplanation = None, standardSolution = None,
           difficulty = Medium, timestamp = None, chatHistory = None\<rparr>)"

section \<open>The navigation state machine (App.tsx)\<close>

record App =
  currentUser :: "User option"
  appState :: AppState
  currentProblem :: "Problem option"
  loading :: bool
  activeMistakes :: "Problem list"
  showAchievements :: bool
  previousLoginTime :: "nat option"
  selectedStudent :: "User option"

definition initialApp :: App where
  "initialApp = \<lparr>currentUser = None, appState = Login, currentProblem = None,
     loading = False, activeMistakes = [], showAchievements = False,
     previousLoginTime = None, selectedStudent = None\<rparr>"

definition handleLoginSuccess :: "Storage \<Rightarrow> User \<Rightarrow> nat option \<Rightarrow> App \<Rightarrow> App" where
  "handleLoginSuccess st user prevLoginTime app =
     (let app1 = app\<lparr>currentUser := Some user, previousLoginTime := prevLoginTime\<rparr> in
      if isFirstLogin user then app1\<lparr>appState := ChangePassword\<rparr>
      else if role user = Coach then app1\<lparr>appState := CoachDashboard\<rparr>
      else
        (let loadedMistakes = getUserMistakes (uid user) st;
             app2 = app1\<lparr>activeMistakes := loadedMistakes\<rparr>;
             app3 = (if prevLoginTime \<noteq> None then app2\<lparr>showAchievements := True\<rparr> else app2)
         in case getLastSession (uid user) st of
              Some lastSession \<Rightarrow>
                app3\<lparr>currentProblem := Some lastSession, appState := ProblemActive\<rparr>
            | None \<Rightarrow> app3\<lparr>appState := TopicSelection\<rparr>))"

text \<open>The login form's \<open>handleSubmit\<close> (Login.tsx): a failed login only shows the error
  message; a successful one hands the user and \<open>previousLogin\<close> to the application.\<close>

definition loginHandleSubmit ::
  "(jstring \<Rightarrow> jstring) \<Rightarrow> nat \<Rightarrow> jstring \<Rightarrow> jstring \<Rightarrow> Storage \<times> App \<Rightarrow> Storage \<times> App" where
  "loginHandleSubmit H now uname password sa =
     (case login H now uname password (fst sa) of
        Inl err \<Rightarrow> sa
      | Inr (st', user, previousLogin) \<Rightarrow>
          (st', handleLoginSuccess st' user previousLogin (snd sa)))"

text \<open>
  The effect run once when the application starts: a stored session identity is
  resumed through \<open>handleLoginSuccess\<close> with no previous-login argument.
  (\<open>initializeAdmin\<close>, started first, writes the roster key only, which the resume
  does not read.)
\<close>

definition appStart :: "Storage \<Rightarrow> App" where
  "appStart st =
     (case getCurrentUser st of
        Some user \<Rightarrow> handleLoginSuccess st user None initialApp
      | None \<Rightarrow> initialApp)"

definition handleLogout :: "Storage \<times> App \<Rightarrow> Storage \<times> App" where
  "handleLogout sa =
     (logout (fst sa),
      (snd sa)\<lparr>currentUser := None, appState := Login, activeMistakes := [],
        selectedStudent := None, currentProblem := None, showAchievements := False\<rparr>)"

definition handlePasswordChangeSuccess :: "Storage \<Rightarrow> App \<Rightarrow> App" where
  "handlePasswordChangeSuccess st app =
     (case getCurrentUser st of
        Some updated \<Rightarrow> handleLoginSuccess st updated None app
      | None \<Rightarrow> app)"

text \<open>
  What the render function shows: the achievement overlay belongs to the student
  layout, which is reached only when none of the four earlier branches returns.
\<close>

definition overlayShown :: "App \<Rightarrow> bool" where
  "overlayShown app =
     (if appState app = Login then False
      else if appState app = ChangePassword \<and> currentUser app \<noteq> None then False
      else if appState app = CoachDashboard then False
      else if appState app = CoachAnalytics then False
      else showAchievements app \<and> currentUser app \<noteq> None)"







definition isStudent :: "App \<Rightarrow> bool" where
  "isStudent app = (case currentUser app of Some u \<Rightarrow> role u = Student | None \<Rightarrow> False)"

definition toggleMistake :: "nat \<Rightarrow> App \<Rightarrow> App" where
  "toggleMistake now app =
     (case currentProblem app of
        None \<Rightarrow> app
      | Some cp \<Rightarrow>
          if \<not> isStudent app then app
          else if list_ex (\<lambda>m. pid m = pid cp) (activeMistakes app)
          then app\<lparr>activeMistakes := filter (\<lambda>m. pid m \<noteq> pid cp) (activeMistakes app)\<rparr>
          else app\<lparr>activeMistakes := cp\<lparr>timestamp := Some now\<rparr> # activeMistakes app\<rparr>)"

definition saveCurrentProblem :: "nat \<Rightarrow> App \<Rightarrow> App" where
  "saveCurrentProblem now app =
     (case currentProblem app of
        None \<Rightarrow> app
      | Some cp \<Rightarrow>
          if \<not> isStudent app then app
          else if \<not> list_ex (\<lambda>m. pid m = pid cp) (activeMistakes app)
          then app\<lparr>activeMistakes := cp\<lparr>timestamp := Some now\<rparr> # activeMistakes app\<rparr>
          else app)"

definition handleChatUpdate :: "Message list \<Rightarrow> App \<Rightarrow> App" where
  "handleChatUpdate msgs app =
     (case currentProblem app of
        None \<Rightarrow> app
      | Some cp \<Rightarrow>
          (let updatedProblem = cp\<lparr>chatHistory := Some msgs\<rparr>;
               app1 = app\<lparr>currentProblem := Some updatedProblem\<rparr>
           in if list_ex (\<lambda>m. pid m = pid updatedProblem) (activeMistakes app)
              then app1\<lparr>activeMistakes :=
                     map (\<lambda>m. if pid m = pid updatedProblem then updatedProblem else m)
                       (activeMistakes app)\<rparr>
              else app1))"

text \<open>The notebook's \<open>onDelete\<close> and \<open>onSelect\<close> callbacks, and the problem view's
  \<open>onBack\<close>.\<close>

definition onDelete :: "jstring \<Rightarrow> App \<Rightarrow> App" where
  "onDelete i app = app\<lparr>activeMistakes := filter (\<lambda>m. pid m \<noteq> i) (activeMistakes app)\<rparr>"

definition onSelect :: "Problem \<Rightarrow> App \<Rightarrow> App" where
  "onSelect problem app = app\<lparr>currentProblem := Some problem, appState := ProblemActive\<rparr>"

text \<open>
  The two persistence effects, run after every render in which their inputs changed:
  the archive is written while a student is logged in, the session pointer while a
  student is inside a problem.
\<close>

definition persistMistakes :: "App \<Rightarrow> Storage \<Rightarrow> Storage" where
  "persistMistakes app st =
     (case currentUser app of
        Some u \<Rightarrow>
          if role u = Student \<and> appState app \<noteq> Login
          then saveUserMistakes (uid u) (activeMistakes app) st else st
      | None \<Rightarrow> st)"


section \<open>The chat form (ChatInterface.tsx)\<close>

record Chat =
  messages :: "Message list"
  inputText :: jstring
  selectedAttachment :: "Attachment option"
  isProcessing :: bool

definition giveUpKeywords :: "jstring list" where
  "giveUpKeywords =
     [[19981, 20250], [22826, 38590], [19981, 25026], [25918, 24323],
      [27809, 24605, 36335], [24456, 38590], [19981, 30693, 36947],
      [72, 101, 108, 112]]"

text \<open>\<open>String.prototype.includes\<close>: the argument occurs as a contiguous run of code
  units.\<close>

fun startsWith :: "'a list \<Rightarrow> 'a list \<Rightarrow> bool" where
  "startsWith s [] = True"
| "startsWith [] (k # ks) = False"
| "startsWith (c # s) (k # ks) = (c = k \<and> startsWith s ks)"

fun includesStr :: "'a list \<Rightarrow> 'a list \<Rightarrow> bool" where
  "includesStr [] k = (k = [])"
| "includesStr (c # s) k = (startsWith (c # s) k \<or> includesStr s k)"

text \<open>
  \<open>String.prototype.trim\<close> removes the white space and line terminators of ECMAScript
  from both ends.
\<close>

definition isWhiteSpace :: "nat \<Rightarrow> bool" where
  "isWhiteSpace c =
     (c \<in> {9, 10, 11, 12, 13, 32, 160, 5760, 8232, 8233, 8239, 8287, 12288, 65279}
      \<or> (8192 \<le> c \<and> c \<le> 8202))"

definition trim :: "jstring \<Rightarrow> jstring" where
  "trim s = rev (dropWhile isWhiteSpace (rev (dropWhile isWhiteSpace s)))"

text \<open>
  \<open>String.prototype.toLowerCase\<close> replaces every character by its lower-case mapping,
  which may be several code units long. The mapping \<open>lc\<close> of the Unicode tables is a
  parameter; \<open>lowerUnit\<close> is its restriction to ASCII, used to run examples.
\<close>

definition toLowerCase :: "(nat \<Rightarrow> nat list) \<Rightarrow> jstring \<Rightarrow> jstring" where
  "toLowerCase lc s = concat (map lc s)"

definition lowerUnit :: "nat \<Rightarrow> nat list" where
  "lowerUnit c = (if 65 \<le> c \<and> c \<le> 90 then [c + 32] else [c])"

text \<open>
  \<open>handleSubmit\<close> up to its first \<open>await\<close>: the guard, the auto-save trigger
  (\<open>onAutoSave\<close> is the application's \<open>saveCurrentProblem\<close>) and the new user message.
  \<open>nowSave\<close> and \<open>nowMsg\<close> are the two readings of the clock.
\<close>

definition givesUp :: "(nat \<Rightarrow> nat list) \<Rightarrow> jstring \<Rightarrow> bool" where
  "givesUp lc txt =
     list_ex (\<lambda>k. includesStr (toLowerCase lc txt) (toLowerCase lc k)) giveUpKeywords"

definition handleSubmit ::
  "(nat \<Rightarrow> nat list) \<Rightarrow> nat \<Rightarrow> nat \<Rightarrow> Chat \<times> App \<Rightarrow> Chat \<times> App" where
  "handleSubmit lc nowSave nowMsg ca =
     (let chat = fst ca; app = snd ca in
      if (trim (inputText chat) = [] \<and> selectedAttachment chat = None) \<or> isProcessing chat
      then (chat, app)
      else
        (let app1 = (if selectedAttachment chat = None \<and> givesUp lc (inputText chat)
                     then saveCurrentProblem nowSave app else app);
             userMsg = \<lparr>mid = toString nowMsg, sender = SenderUser,
                        text_of = inputText chat, attachment = selectedAttachment chat\<rparr>;
             chat1 = chat\<lparr>messages := messages chat @ [userMsg], inputText := [],
                       selectedAttachment := None, isProcessing := True\<rparr>
         in (chat1, app1)))"

section \<open>The progression calculator (AchievementModal.tsx)\<close>

record Badge =
  bid :: jstring
  bname :: jstring
  icon :: jstring
  description :: jstring
  condition :: "nat \<Rightarrow> nat \<Rightarrow> nat \<Rightarrow> bool"

definition BADGES :: "Badge list" where
  "BADGES =
     [\<lparr>bid = [110, 101, 119, 98, 105, 101],
       bname = [21021, 20986, 33541, 24208],
       icon = [55356, 57137],
       description = [25104, 21151, 27880, 20876, 24182, 39318, 27425, 30331, 24405,
         31995, 32479],
       condition = (\<lambda>c l t. l \<ge> 1)\<rparr>,
      \<lparr>bid = [101, 120, 112, 108, 111, 114, 101, 114],
       bname = [25506, 32034, 32773],
       icon = [55358, 56813],
       description = [23581, 35797, 20102, 51, 20010, 19981, 21516, 30340, 25968, 23398,
         20027, 39064],
       condition = (\<lambda>c l t. t \<ge> 3)\<rparr>,
      \<lparr>bid = [115, 99, 104, 111, 108, 97, 114],
       bname = [21220, 22859, 23398, 21592],
       icon = [55357, 56538],
       description = [32047, 35745, 32451, 20064, 36229, 36807, 32, 53, 32, 36947, 39064,
         30446],
       condition = (\<lambda>c l t. c \<ge> 5)\<rparr>,
      \<lparr>bid = [109, 97, 115, 116, 101, 114],
       bname = [35299, 39064, 22823, 24072],
       icon = [55356, 57286],
       description = [32047, 35745, 32451, 20064, 36229, 36807, 32, 50, 48, 32, 36947,
         39064, 30446],
       condition = (\<lambda>c l t. c \<ge> 20)\<rparr>,
      \<lparr>bid = [108, 101, 103, 101, 110, 100],
       bname = [36153, 26364, 20256, 22855],
       icon = [55357, 56401],
       description = [32047, 35745, 32451, 20064, 36229, 36807, 32, 53, 48, 32, 36947,
         39064, 30446],
       condition = (\<lambda>c l t. c \<ge> 50)\<rparr>]"

definition unlockedBadges :: "nat \<Rightarrow> nat \<Rightarrow> nat \<Rightarrow> Badge list" where
  "unlockedBadges problemCount loginCount' uniqueTopics =
     filter (\<lambda>b. condition b problemCount loginCount' uniqueTopics) BADGES"

text \<open>The three inputs as the modal computes them from the user and the archive;
  \<open>user.loginCount || 1\<close> is 1 for an absent and for a zero counter.\<close>

definition problemCountOf :: "Problem list \<Rightarrow> nat" where
  "problemCountOf ms = length ms"

definition loginCountOf :: "User \<Rightarrow> nat" where
  "loginCountOf user = (case loginCount user of None \<Rightarrow> 1 | Some c \<Rightarrow> if c = 0 then 1 else c)"

definition uniqueTopicsOf :: "Problem list \<Rightarrow> nat" where
  "uniqueTopicsOf ms = length (remdups (map topic ms))"

definition level :: "nat \<Rightarrow> nat" where
  "level problemCount = problemCount div 3 + 1"

section \<open>Example values\<close>

text \<open>
  Concrete stores and states on which the theorems below are run. \<open>exampleHash\<close>
  stands in for the digest there; every theorem holds for an arbitrary digest \<open>H\<close>.
\<close>

definition exampleHash :: "jstring \<Rightarrow> jstring" where
  "exampleHash s = rev s"

definition emptyStorage :: Storage where
  "emptyStorage = \<lparr>USERS_KEY = None, DATA_KEY = None, CURRENT_USER_KEY = None,
     LAST_SESSION = Map.empty\<rparr>"

definition exampleAlice :: User where
  "exampleAlice = \<lparr>uid = [117, 49], username = [97], passwordHash = exampleHash [112, 49],
     name = [65], role = Student, isFirstLogin = False, lastLogin = Some 1000,
     loginCount = Some 4\<rparr>"

definition exampleBob :: User where
  "exampleBob = \<lparr>uid = [117, 50], username = [98], passwordHash = exampleHash [112, 50],
     name = [66], role = Student, isFirstLogin = True, lastLogin = None,
     loginCount = None\<rparr>"

definition exampleRoster :: Storage where
  "exampleRoster = \<lparr>USERS_KEY = Some [exampleAlice, exampleBob], DATA_KEY = None,
     CURRENT_USER_KEY = Some exampleAlice, LAST_SESSION = Map.empty\<rparr>"

definition exampleLoggedOut :: Storage where
  "exampleLoggedOut = exampleRoster\<lparr>CURRENT_USER_KEY := None\<rparr>"

definition exampleCoach :: User where
  "exampleCoach = \<lparr>uid = [97, 100, 109], username = [67, 111, 97, 99, 104],
     passwordHash = exampleHash [112, 48], name = [67], role = Coach,
     isFirstLogin = False, lastLogin = Some 500, loginCount = Some 2\<rparr>"

definition exampleSchool :: Storage where
  "exampleSchool = \<lparr>USERS_KEY = Some [exampleCoach, exampleAlice, exampleBob],
     DATA_KEY = None, CURRENT_USER_KEY = None, LAST_SESSION = Map.empty\<rparr>"

definition exampleProblem :: Problem where
  "exampleProblem = \<lparr>pid = [49, 55], topic = [24494, 20998, 26041, 31243],
     content = [120], source = None, feynmanExplanation = None, standardSolution = None,
     difficulty = Medium, timestamp = None, chatHistory = None\<rparr>"

definition exampleActive :: App where
  "exampleActive = \<lparr>currentUser = Some exampleAlice, appState = ProblemActive,
     currentProblem = Some exampleProblem, loading = False, activeMistakes = [],
     showAchievements = False, previousLoginTime = None, selectedStudent = None\<rparr>"


definition exampleSaved :: App where
  "exampleSaved = exampleActive\<lparr>activeMistakes := [exampleProblem\<lparr>timestamp := Some 4000\<rparr>]\<rparr>"

definition exampleAttachment :: Attachment where
  "exampleAttachment = \<lparr>isImage = True, mimeType = [105], adata = [100], aname = [102],
     isText = Some False\<rparr>"

definition exampleChat :: Chat where
  "exampleChat = \<lparr>messages = [], inputText = [25105, 19981, 20250, 20570],
     selectedAttachment = None, isProcessing = False\<rparr>"

definition exampleChatAttached :: Chat where
  "exampleChatAttached = exampleChat\<lparr>selectedAttachment := Some exampleAttachment\<rparr>"

definition exampleArchive :: Storage where
  "exampleArchive = \<lparr>USERS_KEY = Some [exampleAlice, exampleBob],
     DATA_KEY = Some [\<lparr>userId = [117, 49],
       mistakes = [exampleProblem\<lparr>timestamp := Some 4000\<rparr>]\<rparr>],
     CURRENT_USER_KEY = Some exampleAlice, LAST_SESSION = Map.empty\<rparr>"

definition exampleChatWaiting :: Chat where
  "exampleChatWaiting = exampleChat\<lparr>isProcessing := True\<rparr>"

text \<open>
  The batch with one username twice, the two users \<open>registerBatchUsers\<close> makes of it,
  and the stores that the operations of the credential store reach from it.
\<close>

definition exampleId :: "nat \<Rightarrow> jstring" where
  "exampleId i = [117, 95, 48 + i]"

definition duplicateBatch :: "(jstring \<times> jstring) list" where
  "duplicateBatch = [([65], [97]), ([66], [97])]"

definition duplicateFirst :: "(jstring \<Rightarrow> jstring) \<Rightarrow> (nat \<Rightarrow> jstring) \<Rightarrow> User" where
  "duplicateFirst H mkId = newUserOf H (mkId 0) ([65], [97])"

definition duplicateSecond :: "(jstring \<Rightarrow> jstring) \<Rightarrow> (nat \<Rightarrow> jstring) \<Rightarrow> User" where
  "duplicateSecond H mkId = newUserOf H (mkId 1) ([66], [97])"

definition exampleSecret :: jstring where
  "exampleSecret = [115, 101, 99, 114, 101, 116]"

definition duplicateRoster :: "(jstring \<Rightarrow> jstring) \<Rightarrow> (nat \<Rightarrow> jstring) \<Rightarrow> Storage" where
  "duplicateRoster H mkId =
     emptyStorage\<lparr>USERS_KEY := Some [duplicateFirst H mkId, duplicateSecond H mkId]\<rparr>"

definition duplicateLoggedIn :: "(jstring \<Rightarrow> jstring) \<Rightarrow> (nat \<Rightarrow> jstring) \<Rightarrow> Storage" where
  "duplicateLoggedIn H mkId =
     emptyStorage\<lparr>USERS_KEY := Some
         [(duplicateFirst H mkId)\<lparr>lastLogin := Some 1000, loginCount := Some 1\<rparr>,
          duplicateSecond H mkId],
       CURRENT_USER_KEY := Some
         ((duplicateFirst H mkId)\<lparr>lastLogin := Some 1000, loginCount := Some 1\<rparr>)\<rparr>"

definition duplicateChanged :: Storage where
  "duplicateChanged =
     emptyStorage\<lparr>USERS_KEY := Some
         [(duplicateFirst exampleHash exampleId)\<lparr>passwordHash := exampleHash exampleSecret,
            isFirstLogin := False\<rparr>,
          duplicateSecond exampleHash exampleId],
       CURRENT_USER_KEY := Some
         ((duplicateFirst exampleHash exampleId)\<lparr>passwordHash := exampleHash exampleSecret,
            isFirstLogin := False\<rparr>)\<rparr>"

section \<open>Array lookups\<close>

lemma findIndex_SomeD:
  "findIndex P xs = Some i \<Longrightarrow> i < length xs \<and> P (xs ! i) \<and> (\<forall>j<i. \<not> P (xs ! j))"
proof (induction xs arbitrary: i)
  case Nil
  then show ?case by simp
next
  case (Cons x xs)
  show ?case
  proof (cases "P x")
    case True
    with Cons.prems show ?thesis by simp
  next
    case False
    with Cons.prems obtain k where k: "findIndex P xs = Some k" "i = Suc k"
      by auto
    from Cons.IH [OF k(1)] False k(2) show ?thesis
      by (auto simp: less_Suc_eq_0_disj)
  qed
qed

lemma findIndex_first:
  "i < length xs \<Longrightarrow> P (xs ! i) \<Longrightarrow> \<forall>j<i. \<not> P (xs ! j) \<Longrightarrow> findIndex P xs = Some i"
proof (induction xs arbitrary: i)
  case Nil
  then show ?case by simp
next
  case (Cons x xs)
  show ?case
  proof (cases i)
    case 0
    with Cons.prems show ?thesis by simp
  next
    case (Suc k)
    with Cons.prems have "\<not> P x" by auto
    moreover from Cons.prems Suc have "findIndex P xs = Some k"
      by (intro Cons.IH) auto
    ultimately show ?thesis using Suc by simp
  qed
qed

lemma findIndex_distinct:
  assumes "distinct (map f xs)" "i < length xs"
  shows "findIndex (\<lambda>x. f x = f (xs ! i)) xs = Some i"
proof (rule findIndex_first)
  show "\<forall>j<i. \<not> f (xs ! j) = f (xs ! i)"
  proof (intro allI impI)
    fix j assume "j < i"
    with assms nth_eq_iff_index_eq [of "map f xs" j i]
    show "\<not> f (xs ! j) = f (xs ! i)" by simp
  qed
qed (use assms in auto)

section \<open>Properties of the credential store\<close>

subsection \<open>Batch registration\<close>

lemma registerBatchUsers_count:
  "registerBatchUsers H mkId raw st = (st', n) \<Longrightarrow>
     length (getDBUsers st') = length (getDBUsers st) + n
     \<and> take (length (getDBUsers st)) (getDBUsers st') = getDBUsers st"
  by (auto simp: registerBatchUsers_def Let_def saveDBUsers_def getDBUsers_def)

lemma username_newUsers:
  "map username (map (\<lambda>(i, u). newUserOf H (mkId i) u) (enumerate n raw)) = map snd raw"
  by (induction raw arbitrary: n) (auto simp: newUserOf_def)

lemma username_filter_unique:
  "map username (filter (\<lambda>nu. \<not> list_ex (\<lambda>cu. username cu = username nu) cs) xs)
     = filter (\<lambda>n. n \<notin> set (map username cs)) (map username xs)"
proof -
  have "list_ex (\<lambda>cu. username cu = n) cs \<longleftrightarrow> n \<in> set (map username cs)" for n
    unfolding list_ex_iff by force
  then show ?thesis
    by (induction xs) simp_all
qed

lemma registerBatchUsers_usernames:
  "map username (getDBUsers (fst (registerBatchUsers H mkId raw st)))
     = map username (getDBUsers st)
       @ filter (\<lambda>n. n \<notin> set (map username (getDBUsers st))) (map snd raw)"
  by (simp add: registerBatchUsers_def Let_def saveDBUsers_def getDBUsers_def
      username_filter_unique username_newUsers del: map_map set_map)

lemma registerBatchUsers_distinct:
  assumes "distinct (map username (getDBUsers st))" "distinct (map snd raw)"
  shows "distinct (map username (getDBUsers (fst (registerBatchUsers H mkId raw st))))"
  unfolding registerBatchUsers_usernames using assms by (auto simp: distinct_map_filter)

text \<open>
  Claim C1 (roster never holds two users with one username; duplicates inside a batch
  are dropped). \<open>registerBatchUsers\<close> filters the new users against the roster read at
  the start of the call only, so a username that occurs twice in one batch is inserted
  twice: on the empty store, the batch of two entries with the username \<open>a\<close> yields a
  roster of two users named \<open>a\<close> and the count 2. (A batch whose usernames are pairwise
  different keeps the roster's usernames unique, \<open>registerBatchUsers_distinct\<close>, and
  the count is always the number of users added, \<open>registerBatchUsers_count\<close>.)
\<close>

theorem registerBatchUsers_keeps_batch_duplicates:
  "registerBatchUsers H mkId [([65], [97]), ([66], [97])] emptyStorage
     = (emptyStorage\<lparr>USERS_KEY := Some [newUserOf H (mkId 0) ([65], [97]),
                                         newUserOf H (mkId 1) ([66], [97])]\<rparr>, 2)
   \<and> map username (getDBUsers (fst (registerBatchUsers H mkId [([65], [97]), ([66], [97])]
        emptyStorage))) = [[97], [97]]"
  by (simp add: registerBatchUsers_def Let_def saveDBUsers_def getDBUsers_def emptyStorage_def
      enumerate_eq_zip newUserOf_def upt_rec)

subsection \<open>The result of each operation on a user it finds\<close>

lemma exampleRoster_users: "getDBUsers exampleRoster = [exampleAlice, exampleBob]"
  by (simp add: exampleRoster_def getDBUsers_def)

lemma login_at:
  assumes "findIndex (\<lambda>u. username u = n) (getDBUsers st) = Some k"
    and "passwordHash (getDBUsers st ! k) = H p"
  shows "login H now n p st =
     Inr (st\<lparr>USERS_KEY := Some ((getDBUsers st)[k := (getDBUsers st ! k)\<lparr>lastLogin := Some now,
                 loginCount := Some (Suc (case loginCount (getDBUsers st ! k) of
                   None \<Rightarrow> 0 | Some c \<Rightarrow> c))\<rparr>]),
             CURRENT_USER_KEY := Some ((getDBUsers st ! k)\<lparr>lastLogin := Some now,
                 loginCount := Some (Suc (case loginCount (getDBUsers st ! k) of
                   None \<Rightarrow> 0 | Some c \<Rightarrow> c))\<rparr>)\<rparr>,
          (getDBUsers st ! k)\<lparr>lastLogin := Some now,
                 loginCount := Some (Suc (case loginCount (getDBUsers st ! k) of
                   None \<Rightarrow> 0 | Some c \<Rightarrow> c))\<rparr>,
          lastLogin (getDBUsers st ! k))"
  using assms by (simp add: login_def Let_def saveDBUsers_def)

lemma updatePassword_at:
  assumes "findIndex (\<lambda>u. uid u = i) (getDBUsers st) = Some k"
  shows "updatePassword H i p st =
     Inr (st\<lparr>USERS_KEY := Some ((getDBUsers st)[k := (getDBUsers st ! k)
                 \<lparr>passwordHash := H p, isFirstLogin := False\<rparr>]),
             CURRENT_USER_KEY := Some ((getDBUsers st ! k)
                 \<lparr>passwordHash := H p, isFirstLogin := False\<rparr>)\<rparr>,
          (getDBUsers st ! k)\<lparr>passwordHash := H p, isFirstLogin := False\<rparr>)"
proof -
  from findIndex_SomeD [OF assms] have "k < length (getDBUsers st)" by simp
  with assms show ?thesis
    by (simp add: updatePassword_def Let_def saveDBUsers_def)
qed

lemma reset_at:
  assumes "findIndex (\<lambda>u. uid u = i) (getDBUsers st) = Some k"
  shows "resetUserPasswordToUsername H i st =
     Inr (st\<lparr>USERS_KEY := Some ((getDBUsers st)[k := (getDBUsers st ! k)
                 \<lparr>passwordHash := H (username (getDBUsers st ! k)), isFirstLogin := True\<rparr>])\<rparr>)"
proof -
  from findIndex_SomeD [OF assms] have "k < length (getDBUsers st)" by simp
  with assms show ?thesis
    by (simp add: resetUserPasswordToUsername_def Let_def saveDBUsers_def)
qed

lemma getDBUsers_update [simp]: "getDBUsers (st\<lparr>USERS_KEY := Some us\<rparr>) = us"
  by (simp add: getDBUsers_def)

lemma getDBUsers_current [simp]: "getDBUsers (st\<lparr>CURRENT_USER_KEY := c\<rparr>) = getDBUsers st"
  by (simp add: getDBUsers_def)

subsection \<open>Login\<close>

text \<open>
  What \<open>login\<close> does for a roster entry \<open>i\<close> that is the first with its username (every
  entry is, when usernames are unique: \<open>findIndex_distinct\<close>) and a password whose
  digest is the stored one: it succeeds, returns as \<open>previousLogin\<close> the \<open>lastLogin\<close>
  stored before the call, and the record it returns, stores in the roster and makes the
  session identity has \<open>lastLogin\<close> equal to the time of the call and a \<open>loginCount\<close>
  one above the old one (an absent counter counts as 0).
\<close>

lemma login_first_with_username:
  assumes "i < length (getDBUsers st)"
    and "\<forall>j<i. username (getDBUsers st ! j) \<noteq> username (getDBUsers st ! i)"
    and "passwordHash (getDBUsers st ! i) = H password"
  shows "\<exists>st' u'.
      login H now (username (getDBUsers st ! i)) password st
        = Inr (st', u', lastLogin (getDBUsers st ! i))
    \<and> u' = (getDBUsers st ! i)\<lparr>lastLogin := Some now,
          loginCount := Some (Suc (case loginCount (getDBUsers st ! i) of None \<Rightarrow> 0 | Some c \<Rightarrow> c))\<rparr>
    \<and> getDBUsers st' = (getDBUsers st)[i := u']
    \<and> getCurrentUser st' = Some u'"
proof -
  have "findIndex (\<lambda>u. username u = username (getDBUsers st ! i)) (getDBUsers st) = Some i"
    using assms(1,2) by (intro findIndex_first) auto
  then show ?thesis
    using assms(3)
    by (simp add: login_def Let_def getCurrentUser_def saveDBUsers_def getDBUsers_def)
qed

text \<open>
  Claim C2 (for every registered user and matching password, a successful login
  returns that user's stored \<open>lastLogin\<close>, raises that user's \<open>loginCount\<close> by one and
  makes that user's updated record the session identity) does not hold on the rosters
  that \<open>registerBatchUsers\<close> produces from a batch with a repeated username.
  The batch of the example registers two users with the username \<open>a\<close>; the first logs
  in at time 1000. The second is a registered user, its stored digest is that of the
  password \<open>a\<close>, and its \<open>lastLogin\<close> and \<open>loginCount\<close> are absent; yet the login
  with \<open>a\<close> and \<open>a\<close> at time 2000 returns the previous login 1000 of the first user,
  counts the login for the first user, leaves the second user's record as it was, and
  makes the first user the session identity.
\<close>

theorem login_resolves_duplicate_to_first:
  "registerBatchUsers H mkId duplicateBatch emptyStorage = (duplicateRoster H mkId, 2)
   \<and> login H 1000 [97] [97] (duplicateRoster H mkId)
     = Inr (duplicateLoggedIn H mkId,
          (duplicateFirst H mkId)\<lparr>lastLogin := Some 1000, loginCount := Some 1\<rparr>, None)
   \<and> getDBUsers (duplicateLoggedIn H mkId) ! 1 = duplicateSecond H mkId
   \<and> username (duplicateSecond H mkId) = [97]
   \<and> passwordHash (duplicateSecond H mkId) = H [97]
   \<and> lastLogin (duplicateSecond H mkId) = None
   \<and> loginCount (duplicateSecond H mkId) = None
   \<and> login H 2000 [97] [97] (duplicateLoggedIn H mkId)
     = Inr ((duplicateLoggedIn H mkId)\<lparr>USERS_KEY := Some
              [(duplicateFirst H mkId)\<lparr>lastLogin := Some 2000, loginCount := Some 2\<rparr>,
               duplicateSecond H mkId],
            CURRENT_USER_KEY := Some
              ((duplicateFirst H mkId)\<lparr>lastLogin := Some 2000, loginCount := Some 2\<rparr>)\<rparr>,
          (duplicateFirst H mkId)\<lparr>lastLogin := Some 2000, loginCount := Some 2\<rparr>, Some 1000)
   \<and> name (duplicateFirst H mkId) = [65] \<and> name (duplicateSecond H mkId) = [66]"
  by (simp add: registerBatchUsers_def login_def Let_def saveDBUsers_def getDBUsers_def
      emptyStorage_def duplicateBatch_def duplicateFirst_def duplicateSecond_def
      duplicateRoster_def duplicateLoggedIn_def enumerate_eq_zip newUserOf_def upt_rec)

subsection \<open>Password change\<close>

text \<open>
  Claim C3, as stated, fails: \<open>updatePassword\<close> writes the updated record to the
  current-session key without looking at what the key held. In the example Alice is
  logged in (or nobody is) and Bob's password is changed; afterwards the session
  identity is Bob's updated record.
\<close>

theorem updatePassword_session_counterexample:
  "getCurrentUser exampleRoster = Some exampleAlice
   \<and> uid exampleAlice \<noteq> [117, 50]
   \<and> map_sum id (getCurrentUser \<circ> fst) (updatePassword exampleHash [117, 50] [115] exampleRoster)
       = Inr (Some (exampleBob\<lparr>passwordHash := exampleHash [115], isFirstLogin := False\<rparr>))
   \<and> getCurrentUser exampleLoggedOut = None
   \<and> map_sum id (getCurrentUser \<circ> fst) (updatePassword exampleHash [117, 50] [115] exampleLoggedOut)
       = Inr (Some (exampleBob\<lparr>passwordHash := exampleHash [115], isFirstLogin := False\<rparr>))"
  by (simp add: updatePassword_def Let_def getCurrentUser_def saveDBUsers_def getDBUsers_def
      exampleRoster_def exampleLoggedOut_def exampleAlice_def exampleBob_def)

text \<open>
  Claim C3, amended. For every existing user id, \<open>updatePassword\<close> stores the digest of
  the new password, clears \<open>isFirstLogin\<close>, writes the roster with that one record
  replaced, and sets the current-session identity to the updated record, whatever the
  identity was before; the archive and the session pointers are not written.
\<close>

theorem updatePassword_always_sets_session:
  assumes "findIndex (\<lambda>u. uid u = i) (getDBUsers st) = Some k"
  shows "\<exists>st' u'. updatePassword H i p st = Inr (st', u')
    \<and> u' = (getDBUsers st ! k)\<lparr>passwordHash := H p, isFirstLogin := False\<rparr>
    \<and> getDBUsers st' = (getDBUsers st)[k := u']
    \<and> getCurrentUser st' = Some u'
    \<and> DATA_KEY st' = DATA_KEY st \<and> LAST_SESSION st' = LAST_SESSION st"
  by (simp add: updatePassword_at [OF assms] getCurrentUser_def)

theorem updatePassword_always_sets_session_witness:
  "findIndex (\<lambda>u. uid u = [117, 50]) (getDBUsers exampleRoster) = Some 1
   \<and> (\<exists>st' u'. updatePassword exampleHash [117, 50] [115] exampleRoster = Inr (st', u')
        \<and> u' = exampleBob\<lparr>passwordHash := exampleHash [115], isFirstLogin := False\<rparr>
        \<and> getDBUsers st' = [exampleAlice, u']
        \<and> getCurrentUser st' = Some u')"
proof -
  have h: "findIndex (\<lambda>u. uid u = [117, 50]) (getDBUsers exampleRoster) = Some 1"
    by (simp add: exampleRoster_users exampleAlice_def exampleBob_def)
  from updatePassword_always_sets_session [OF h, of exampleHash "[115]"]
  obtain st' u' where
    "updatePassword exampleHash [117, 50] [115] exampleRoster = Inr (st', u')"
    "u' = (getDBUsers exampleRoster ! 1)\<lparr>passwordHash := exampleHash [115],
       isFirstLogin := False\<rparr>"
    "getDBUsers st' = (getDBUsers exampleRoster)[1 := u']"
    "getCurrentUser st' = Some u'"
    by blast
  then have "updatePassword exampleHash [117, 50] [115] exampleRoster = Inr (st', u')
      \<and> u' = exampleBob\<lparr>passwordHash := exampleHash [115], isFirstLogin := False\<rparr>
      \<and> getDBUsers st' = [exampleAlice, u']
      \<and> getCurrentUser st' = Some u'"
    by (simp add: exampleRoster_users)
  with h show ?thesis by blast
qed

subsection \<open>Password reset\<close>



text \<open>
  Resetting and logging in, for a roster entry \<open>i\<close> that is the first with its id and
  the first with its username (every entry is, when ids and usernames are unique):
  the reset by the user's id followed by a login with the username as the password
  succeeds, and the record returned is that user's, with \<open>isFirstLogin\<close> set.
\<close>

lemma reset_then_login_first_entry:
  assumes "i < length (getDBUsers st)"
    and "\<forall>j<i. uid (getDBUsers st ! j) \<noteq> uid (getDBUsers st ! i)"
    and "\<forall>j<i. username (getDBUsers st ! j) \<noteq> username (getDBUsers st ! i)"
  shows "\<exists>st1 st2 u'.
      resetUserPasswordToUsername H (uid (getDBUsers st ! i)) st = Inr st1
    \<and> login H now (username (getDBUsers st ! i)) (username (getDBUsers st ! i)) st1
        = Inr (st2, u', lastLogin (getDBUsers st ! i))
    \<and> isFirstLogin u' = True
    \<and> uid u' = uid (getDBUsers st ! i)
    \<and> username u' = username (getDBUsers st ! i)"
proof -
  let ?us = "getDBUsers st"
  let ?u = "?us ! i"
  let ?v = "?u\<lparr>passwordHash := H (username ?u), isFirstLogin := True\<rparr>"
  have fi: "findIndex (\<lambda>u. uid u = uid ?u) ?us = Some i"
    using assms(1,2) by (intro findIndex_first) auto
  define st1 where "st1 = st\<lparr>USERS_KEY := Some (?us[i := ?v])\<rparr>"
  have r: "resetUserPasswordToUsername H (uid ?u) st = Inr st1"
    unfolding st1_def by (rule reset_at [OF fi])
  have us1: "getDBUsers st1 = ?us[i := ?v]" by (simp add: st1_def)
  have at: "getDBUsers st1 ! i = ?v" using assms(1) us1 by simp
  have "findIndex (\<lambda>u. username u = username ?u) (getDBUsers st1) = Some i"
    using assms(1,3) us1 by (intro findIndex_first) (auto simp: nth_list_update)
  moreover have "passwordHash (getDBUsers st1 ! i) = H (username ?u)" using at by simp
  ultimately have "login H now (username ?u) (username ?u) st1 =
     Inr (st1\<lparr>USERS_KEY := Some ((getDBUsers st1)[i := (getDBUsers st1 ! i)\<lparr>lastLogin := Some now,
                 loginCount := Some (Suc (case loginCount (getDBUsers st1 ! i) of
                   None \<Rightarrow> 0 | Some c \<Rightarrow> c))\<rparr>]),
             CURRENT_USER_KEY := Some ((getDBUsers st1 ! i)\<lparr>lastLogin := Some now,
                 loginCount := Some (Suc (case loginCount (getDBUsers st1 ! i) of
                   None \<Rightarrow> 0 | Some c \<Rightarrow> c))\<rparr>)\<rparr>,
          (getDBUsers st1 ! i)\<lparr>lastLogin := Some now,
                 loginCount := Some (Suc (case loginCount (getDBUsers st1 ! i) of
                   None \<Rightarrow> 0 | Some c \<Rightarrow> c))\<rparr>,
          lastLogin (getDBUsers st1 ! i))"
    by (rule login_at)
  with r at show ?thesis by simp
qed

text \<open>
  Claim C9 (for every existing user, the reset followed by a login with the username
  as the password succeeds) does not hold on the rosters that \<open>registerBatchUsers\<close>
  produces from a batch with a repeated username. The batch of the example registers
  two users with the username \<open>a\<close>, and the first changes its password. The reset of
  the second user by its id succeeds, and the login with \<open>a\<close> and \<open>a\<close> that follows
  fails with the wrong-password error: \<open>login\<close> compares the digest with that of the
  first user of that name.
\<close>

theorem reset_then_login_fails_on_duplicate:
  "registerBatchUsers exampleHash exampleId duplicateBatch emptyStorage
     = (duplicateRoster exampleHash exampleId, 2)
   \<and> updatePassword exampleHash (exampleId 0) exampleSecret (duplicateRoster exampleHash exampleId)
     = Inr (duplicateChanged,
          (duplicateFirst exampleHash exampleId)\<lparr>passwordHash := exampleHash exampleSecret,
             isFirstLogin := False\<rparr>)
   \<and> getDBUsers duplicateChanged ! 1 = duplicateSecond exampleHash exampleId
   \<and> uid (duplicateSecond exampleHash exampleId) = exampleId 1
   \<and> username (duplicateSecond exampleHash exampleId) = [97]
   \<and> resetUserPasswordToUsername exampleHash (exampleId 1) duplicateChanged
     = Inr duplicateChanged
   \<and> login exampleHash 3000 [97] [97] duplicateChanged = Inl WrongPassword"
  by (simp add: registerBatchUsers_def updatePassword_def resetUserPasswordToUsername_def
      login_def Let_def saveDBUsers_def getDBUsers_def
      emptyStorage_def duplicateBatch_def duplicateFirst_def duplicateSecond_def
      duplicateRoster_def duplicateChanged_def
      enumerate_eq_zip newUserOf_def upt_rec exampleHash_def exampleId_def exampleSecret_def)

section \<open>Properties of the navigation state machine\<close>

subsection \<open>The achievement overlay after login\<close>

lemma showAchievements_handleLoginSuccess:
  "showAchievements (handleLoginSuccess st user prev app) =
     (showAchievements app \<or> (\<not> isFirstLogin user \<and> role user = Student \<and> prev \<noteq> None))"
  by (cases "role user") (auto simp: handleLoginSuccess_def Let_def split: option.splits)

lemma appState_handleLoginSuccess:
  "appState (handleLoginSuccess st user prev app) =
     (if isFirstLogin user then ChangePassword
      else if role user = Coach then CoachDashboard
      else if getLastSession (uid user) st \<noteq> None then ProblemActive else TopicSelection)"
  by (auto simp: handleLoginSuccess_def Let_def split: option.splits)

lemma currentUser_handleLoginSuccess:
  "currentUser (handleLoginSuccess st user prev app) = Some user"
  by (auto simp: handleLoginSuccess_def Let_def split: option.splits)

lemma overlayShown_handleLoginSuccess:
  "overlayShown (handleLoginSuccess st user prev app) =
     (\<not> isFirstLogin user \<and> role user = Student
      \<and> (showAchievements app \<or> prev \<noteq> None))"
  by (cases "role user")
    (auto simp: overlayShown_def showAchievements_handleLoginSuccess
      appState_handleLoginSuccess currentUser_handleLoginSuccess)

lemma overlayShown_appStart: "\<not> overlayShown (appStart st)"
proof (cases "getCurrentUser st")
  case None
  then show ?thesis by (simp add: appStart_def initialApp_def overlayShown_def)
next
  case (Some user)
  then show ?thesis
    by (simp add: appStart_def overlayShown_handleLoginSuccess initialApp_def)
qed

text \<open>
  Claim C5, as stated, fails: the coach of the example logs in through the login form,
  the login supplies the defined previous login time 500, and no overlay is shown,
  since only the student branch of \<open>handleLoginSuccess\<close> sets the flag.
\<close>

theorem overlay_counterexample:
  "previousLoginTime (snd (loginHandleSubmit exampleHash 2000 [67, 111, 97, 99, 104] [112, 48]
      (exampleSchool, initialApp))) = Some 500
   \<and> appState (snd (loginHandleSubmit exampleHash 2000 [67, 111, 97, 99, 104] [112, 48]
      (exampleSchool, initialApp))) = CoachDashboard
   \<and> \<not> overlayShown (snd (loginHandleSubmit exampleHash 2000 [67, 111, 97, 99, 104] [112, 48]
      (exampleSchool, initialApp)))"
  by (simp add: loginHandleSubmit_def login_def Let_def exampleSchool_def getDBUsers_def
      exampleCoach_def handleLoginSuccess_def overlayShown_def initialApp_def saveDBUsers_def)

text \<open>
  Claim C5, amended. When \<open>handleLoginSuccess\<close> runs on a state whose overlay flag is
  clear (the initial state, and every state after a logout), the achievement overlay
  is shown exactly when the user is a student who does not have to change the password
  and the login supplied a defined \<open>previousLogin\<close>; it is never shown by the silent
  session resume at the start of the application.
\<close>

theorem overlay_after_login:
  assumes "\<not> showAchievements app"
  shows "overlayShown (handleLoginSuccess st user prev app)
      = (role user = Student \<and> \<not> isFirstLogin user \<and> prev \<noteq> None)
    \<and> \<not> overlayShown (appStart st0)"
  using assms by (auto simp: overlayShown_handleLoginSuccess overlayShown_appStart)

theorem overlay_after_login_witness:
  "\<not> showAchievements initialApp
   \<and> overlayShown (handleLoginSuccess exampleSchool
        (exampleAlice\<lparr>lastLogin := Some 2000, loginCount := Some 5\<rparr>) (Some 1000) initialApp)
   \<and> \<not> overlayShown (handleLoginSuccess exampleSchool
        (exampleAlice\<lparr>lastLogin := Some 2000, loginCount := Some 5\<rparr>) None initialApp)
   \<and> \<not> overlayShown (appStart exampleRoster)"
  using overlay_after_login [of initialApp exampleSchool
      "exampleAlice\<lparr>lastLogin := Some 2000, loginCount := Some 5\<rparr>" "Some 1000" exampleRoster]
    overlay_after_login [of initialApp exampleSchool
      "exampleAlice\<lparr>lastLogin := Some 2000, loginCount := Some 5\<rparr>" None exampleRoster]
  by (simp add: initialApp_def exampleAlice_def)

subsection \<open>Topic selection\<close>




lemma topic_generateMathProblem [simp]: "topic (generateMathProblem now response t) = t"
  by (simp add: generateMathProblem_def split: option.split)

















subsection \<open>Strings\<close>

lemma startsWith_iff: "startsWith s k \<longleftrightarrow> (\<exists>b. s = k @ b)"
  by (induction s k rule: startsWith.induct) auto

lemma includesStr_iff: "includesStr s k \<longleftrightarrow> (\<exists>a b. s = a @ k @ b)"
proof (induction s)
  case Nil
  then show ?case by simp
next
  case (Cons c s)
  have "(\<exists>a b. c # s = a @ k @ b) \<longleftrightarrow> (\<exists>b. c # s = k @ b) \<or> (\<exists>a b. s = a @ k @ b)"
  proof
    assume "\<exists>a b. c # s = a @ k @ b"
    then obtain a b where ab: "c # s = a @ k @ b" by blast
    show "(\<exists>b. c # s = k @ b) \<or> (\<exists>a b. s = a @ k @ b)"
    proof (cases a)
      case Nil
      with ab show ?thesis by simp
    next
      case (Cons x a')
      with ab have "s = a' @ k @ b" by simp
      then show ?thesis by blast
    qed
  next
    assume "(\<exists>b. c # s = k @ b) \<or> (\<exists>a b. s = a @ k @ b)"
    then show "\<exists>a b. c # s = a @ k @ b"
    proof
      assume "\<exists>b. c # s = k @ b"
      then obtain b where "c # s = [] @ k @ b" by auto
      then show ?thesis by blast
    next
      assume "\<exists>a b. s = a @ k @ b"
      then obtain a b where "c # s = (c # a) @ k @ b" by auto
      then show ?thesis by blast
    qed
  qed
  with Cons.IH show ?case by (simp add: startsWith_iff)
qed

lemma includesStr_toLowerCase:
  assumes "includesStr s k"
  shows "includesStr (toLowerCase lc s) (toLowerCase lc k)"
proof -
  from assms obtain a b where "s = a @ k @ b" by (auto simp: includesStr_iff)
  then have "toLowerCase lc s = toLowerCase lc a @ toLowerCase lc k @ toLowerCase lc b"
    by (simp add: toLowerCase_def)
  then show ?thesis unfolding includesStr_iff by blast
qed

lemma givesUp_of_keyword:
  assumes "k \<in> set giveUpKeywords" "includesStr txt k"
  shows "givesUp lc txt"
  unfolding givesUp_def list_ex_iff
  using assms includesStr_toLowerCase by blast

lemma in_set_dropWhile: "x \<in> set xs \<Longrightarrow> \<not> P x \<Longrightarrow> x \<in> set (dropWhile P xs)"
  by (induction xs) auto

lemma trim_eq_Nil_iff: "trim s = [] \<longleftrightarrow> (\<forall>c\<in>set s. isWhiteSpace c)"
proof
  assume "trim s = []"
  then have "\<forall>c\<in>set (dropWhile isWhiteSpace s). isWhiteSpace c"
    by (simp add: trim_def dropWhile_eq_Nil_conv)
  then show "\<forall>c\<in>set s. isWhiteSpace c"
    using in_set_dropWhile [of _ s isWhiteSpace] by blast
next
  assume "\<forall>c\<in>set s. isWhiteSpace c"
  then show "trim s = []" by (auto simp: trim_def dest: set_dropWhileD)
qed

lemma keyword_not_blank:
  assumes "k \<in> set giveUpKeywords"
  shows "\<exists>c\<in>set k. \<not> isWhiteSpace c"
  using assms by (auto simp: giveUpKeywords_def isWhiteSpace_def)

lemma trim_keyword_text:
  assumes "k \<in> set giveUpKeywords" "includesStr txt k"
  shows "trim txt \<noteq> []"
proof -
  from keyword_not_blank [OF assms(1)] obtain c where c: "c \<in> set k" "\<not> isWhiteSpace c"
    by blast
  from assms(2) obtain a b where "txt = a @ k @ b" by (auto simp: includesStr_iff)
  with c(1) have "c \<in> set txt" by simp
  with c(2) show ?thesis by (auto simp: trim_eq_Nil_iff)
qed

subsection \<open>The archive store\<close>

lemma list_ex_pid: "list_ex (\<lambda>m. pid m = i) ms \<longleftrightarrow> i \<in> set (map pid ms)"
  by (induction ms) auto

lemma activeMistakes_saveCurrentProblem:
  assumes "currentProblem app = Some cp" "isStudent app"
  shows "saveCurrentProblem now app =
     (if pid cp \<in> set (map pid (activeMistakes app)) then app
      else app\<lparr>activeMistakes := cp\<lparr>timestamp := Some now\<rparr> # activeMistakes app\<rparr>)"
proof -
  have "list_ex (\<lambda>m. pid m = pid cp) (activeMistakes app)
      \<longleftrightarrow> pid cp \<in> set (map pid (activeMistakes app))"
    by (rule list_ex_pid)
  with assms show ?thesis by (simp add: saveCurrentProblem_def)
qed

lemma saveCurrentProblem_idem:
  "saveCurrentProblem now' (saveCurrentProblem now app) = saveCurrentProblem now app"
  by (cases "currentProblem app")
    (auto simp: saveCurrentProblem_def isStudent_def list_ex_iff split: option.splits)

subsection \<open>The auto-save trigger\<close>

lemma handleSubmit_app:
  "snd (handleSubmit lc n1 n2 (chat, app)) = app
   \<or> snd (handleSubmit lc n1 n2 (chat, app)) = saveCurrentProblem n1 app"
  by (simp add: handleSubmit_def Let_def)

lemma handleSubmit_gives_up:
  assumes "\<not> isProcessing chat" "selectedAttachment chat = None"
    "k \<in> set giveUpKeywords" "includesStr (inputText chat) k"
  shows "snd (handleSubmit lc n1 n2 (chat, app)) = saveCurrentProblem n1 app"
  using assms trim_keyword_text [OF assms(3,4)] givesUp_of_keyword [OF assms(3,4), of lc]
  by (simp add: handleSubmit_def Let_def)

lemma find_findIndex: "find P xs = map_option (\<lambda>i. xs ! i) (findIndex P xs)"
  by (induction xs) (simp_all add: option.map_comp o_def)

lemma find_append_None: "find P xs = None \<Longrightarrow> find P (xs @ ys) = find P ys"
  by (induction xs) (auto split: if_splits)

lemma getDBData_saveDBData [simp]: "getDBData (saveDBData d st) = d"
  by (simp add: getDBData_def saveDBData_def)

lemma getUserMistakes_saveUserMistakes:
  "getUserMistakes i (saveUserMistakes i ms st) = ms"
proof (cases "findIndex (\<lambda>d. userId d = i) (getDBData st)")
  case None
  then have "find (\<lambda>d. userId d = i) (getDBData st) = None"
    by (simp add: find_findIndex)
  with None show ?thesis
    by (simp add: getUserMistakes_def saveUserMistakes_def Let_def find_append_None)
next
  case (Some k)
  let ?d = "getDBData st"
  let ?d' = "?d[k := (?d ! k)\<lparr>mistakes := ms\<rparr>]"
  from findIndex_SomeD [OF Some]
  have k: "k < length ?d" "userId (?d ! k) = i" "\<forall>j<k. userId (?d ! j) \<noteq> i"
    by auto
  have "findIndex (\<lambda>d. userId d = i) ?d' = Some k"
    using k by (intro findIndex_first) (auto simp: nth_list_update)
  then have "find (\<lambda>d. userId d = i) ?d' = Some (?d' ! k)"
    by (simp add: find_findIndex)
  with Some k(1) show ?thesis
    by (simp add: getUserMistakes_def saveUserMistakes_def Let_def)
qed

lemma getUserMistakes_persistMistakes:
  assumes "currentUser app = Some u" "role u = Student" "appState app \<noteq> Login"
  shows "getUserMistakes (uid u) (persistMistakes app st) = activeMistakes app"
  using assms by (simp add: persistMistakes_def getUserMistakes_saveUserMistakes)

lemma handleSubmit_idle:
  assumes "currentProblem app = Some cp" "isStudent app"
    "pid cp \<in> set (map pid (activeMistakes app))"
  shows "snd (handleSubmit lc n1 n2 (chat, app)) = app"
  using handleSubmit_app [of lc n1 n2 chat app]
    activeMistakes_saveCurrentProblem [OF assms(1,2), of n1] assms(3)
  by auto

text \<open>
  Claim C4, as stated, fails: the trigger is guarded by \<open>!selectedAttachment\<close>. In
  the example a student inside a problem submits a text containing the first keyword
  together with an attachment; the message is sent and the archive stays empty.
\<close>

theorem give_up_with_attachment_counterexample:
  "currentUser exampleActive = Some exampleAlice \<and> role exampleAlice = Student
   \<and> appState exampleActive = ProblemActive
   \<and> currentProblem exampleActive = Some exampleProblem
   \<and> \<not> isProcessing exampleChatAttached
   \<and> includesStr (inputText exampleChatAttached) (giveUpKeywords ! 0)
   \<and> messages (fst (handleSubmit lowerUnit 4000 4001 (exampleChatAttached, exampleActive)))
       \<noteq> []
   \<and> activeMistakes (snd (handleSubmit lowerUnit 4000 4001
        (exampleChatAttached, exampleActive))) = []"
  by (simp add: exampleActive_def exampleAlice_def exampleChat_def exampleChatAttached_def
      giveUpKeywords_def handleSubmit_def Let_def)

lemma handleSubmit_attachment:
  assumes "selectedAttachment chat \<noteq> None"
  shows "snd (handleSubmit lc n1 n2 (chat, app)) = app"
  using assms by (auto simp: handleSubmit_def Let_def)

lemma handleSubmit_processing:
  assumes "isProcessing chat"
  shows "handleSubmit lc n1 n2 (chat, app) = (chat, app)"
  using assms by (simp add: handleSubmit_def Let_def)

text \<open>
  Claim C4, amended. A student is inside a problem, the chat form is not waiting for a
  reply (while it is, a submission is ignored: nothing is sent and nothing changes), and
  the student submits, with no attachment selected, a text that contains one of the
  giving-up keywords. Then the current problem is in the archive afterwards: it is put
  in front, with the time of the trigger, when no problem of its id was there, and the
  archive is left as it is otherwise; any further submission for the same problem
  changes nothing; the navigation state and the current problem are unchanged; and the
  persistence effect stores exactly this archive for the student. A submission that
  carries an attachment never triggers the auto-save, whatever its text and whatever
  the state: the application state is left as it is.
\<close>

theorem give_up_archives_once:
  "(currentUser app = Some u \<and> role u = Student \<and> appState app = ProblemActive
      \<and> currentProblem app = Some cp
      \<and> \<not> isProcessing chat \<and> selectedAttachment chat = None
      \<and> k \<in> set giveUpKeywords \<and> includesStr (inputText chat) k
    \<longrightarrow>
      pid cp \<in> set (map pid (activeMistakes (snd (handleSubmit lc n1 n2 (chat, app)))))
      \<and> snd (handleSubmit lc n1 n2 (chat, app))
          = (if pid cp \<in> set (map pid (activeMistakes app)) then app
             else app\<lparr>activeMistakes := cp\<lparr>timestamp := Some n1\<rparr> # activeMistakes app\<rparr>)
      \<and> snd (handleSubmit lc n3 n4 (chat', snd (handleSubmit lc n1 n2 (chat, app))))
          = snd (handleSubmit lc n1 n2 (chat, app))
      \<and> appState (snd (handleSubmit lc n1 n2 (chat, app))) = ProblemActive
      \<and> currentProblem (snd (handleSubmit lc n1 n2 (chat, app))) = Some cp
      \<and> getUserMistakes (uid u) (persistMistakes (snd (handleSubmit lc n1 n2 (chat, app))) st)
          = activeMistakes (snd (handleSubmit lc n1 n2 (chat, app))))
   \<and> (selectedAttachment chat \<noteq> None \<longrightarrow> snd (handleSubmit lc n1 n2 (chat, app)) = app)
   \<and> (isProcessing chat \<longrightarrow> handleSubmit lc n1 n2 (chat, app) = (chat, app))"
proof -
  let ?app = "snd (handleSubmit lc n1 n2 (chat, app))"
  have archived: "pid cp \<in> set (map pid (activeMistakes ?app))
      \<and> ?app = (if pid cp \<in> set (map pid (activeMistakes app)) then app
             else app\<lparr>activeMistakes := cp\<lparr>timestamp := Some n1\<rparr> # activeMistakes app\<rparr>)
      \<and> snd (handleSubmit lc n3 n4 (chat', ?app)) = ?app
      \<and> appState ?app = ProblemActive
      \<and> currentProblem ?app = Some cp
      \<and> getUserMistakes (uid u) (persistMistakes ?app st) = activeMistakes ?app"
    if h: "currentUser app = Some u" "role u = Student" "appState app = ProblemActive"
      "currentProblem app = Some cp" "\<not> isProcessing chat" "selectedAttachment chat = None"
      "k \<in> set giveUpKeywords" "includesStr (inputText chat) k"
  proof -
    have stud: "isStudent app" using h(1,2) by (simp add: isStudent_def)
    have "?app = saveCurrentProblem n1 app"
      using h(5-8) by (rule handleSubmit_gives_up)
    then have eq: "?app = (if pid cp \<in> set (map pid (activeMistakes app)) then app
        else app\<lparr>activeMistakes := cp\<lparr>timestamp := Some n1\<rparr> # activeMistakes app\<rparr>)"
      by (simp add: activeMistakes_saveCurrentProblem [OF h(4) stud])
    then have mem: "pid cp \<in> set (map pid (activeMistakes ?app))"
      by (simp split: if_splits)
    from eq have frame: "currentUser ?app = Some u" "appState ?app = ProblemActive"
      "currentProblem ?app = Some cp"
      using h(1,3,4) by (simp_all split: if_splits)
    have stud': "isStudent ?app" using frame(1) h(2) by (simp add: isStudent_def)
    have again: "snd (handleSubmit lc n3 n4 (chat', ?app)) = ?app"
      using frame(3) stud' mem by (rule handleSubmit_idle)
    have "appState ?app \<noteq> Login" using frame(2) by simp
    with frame(1) h(2)
    have stored: "getUserMistakes (uid u) (persistMistakes ?app st) = activeMistakes ?app"
      by (rule getUserMistakes_persistMistakes)
    from mem eq again frame stored show ?thesis by simp
  qed
  from archived handleSubmit_attachment [of chat lc n1 n2 app]
    handleSubmit_processing [of chat lc n1 n2 app]
  show ?thesis by blast
qed

theorem give_up_archives_once_witness:
  "currentUser exampleActive = Some exampleAlice \<and> role exampleAlice = Student
   \<and> appState exampleActive = ProblemActive
   \<and> currentProblem exampleActive = Some exampleProblem
   \<and> \<not> isProcessing exampleChat \<and> selectedAttachment exampleChat = None
   \<and> [19981, 20250] \<in> set giveUpKeywords
   \<and> includesStr (inputText exampleChat) [19981, 20250]
   \<and> activeMistakes exampleActive = []
   \<and> activeMistakes (snd (handleSubmit lowerUnit 4000 4001 (exampleChat, exampleActive)))
       = [exampleProblem\<lparr>timestamp := Some 4000\<rparr>]
   \<and> snd (handleSubmit lowerUnit 5000 5001 (exampleChat,
         snd (handleSubmit lowerUnit 4000 4001 (exampleChat, exampleActive))))
       = snd (handleSubmit lowerUnit 4000 4001 (exampleChat, exampleActive))
   \<and> appState (snd (handleSubmit lowerUnit 4000 4001 (exampleChat, exampleActive)))
       = ProblemActive
   \<and> selectedAttachment exampleChatAttached \<noteq> None
   \<and> snd (handleSubmit lowerUnit 4000 4001 (exampleChatAttached, exampleActive))
       = exampleActive
   \<and> isProcessing exampleChatWaiting
   \<and> handleSubmit lowerUnit 4000 4001 (exampleChatWaiting, exampleActive)
       = (exampleChatWaiting, exampleActive)"
proof -
  have h: "currentUser exampleActive = Some exampleAlice" "role exampleAlice = Student"
    "appState exampleActive = ProblemActive"
    "currentProblem exampleActive = Some exampleProblem"
    "\<not> isProcessing exampleChat" "selectedAttachment exampleChat = None"
    "[19981, 20250] \<in> set giveUpKeywords"
    "includesStr (inputText exampleChat) [19981, 20250]"
    by (simp_all add: exampleActive_def exampleAlice_def exampleChat_def giveUpKeywords_def)
  have e: "activeMistakes exampleActive = []"
    by (simp add: exampleActive_def)
  have a: "selectedAttachment exampleChatAttached \<noteq> None"
    by (simp add: exampleChatAttached_def)
  have w: "isProcessing exampleChatWaiting"
    by (simp add: exampleChatWaiting_def)
  let ?app = "snd (handleSubmit lowerUnit 4000 4001 (exampleChat, exampleActive))"
  from give_up_archives_once [of exampleActive exampleAlice exampleProblem exampleChat
      "[19981, 20250]" lowerUnit 4000 4001 5000 5001 exampleChat emptyStorage] h
  have r: "?app = (if pid exampleProblem \<in> set (map pid (activeMistakes exampleActive))
        then exampleActive
        else exampleActive\<lparr>activeMistakes :=
          exampleProblem\<lparr>timestamp := Some 4000\<rparr> # activeMistakes exampleActive\<rparr>)"
    "snd (handleSubmit lowerUnit 5000 5001 (exampleChat, ?app)) = ?app"
    "appState ?app = ProblemActive"
    by blast+
  have m: "activeMistakes ?app = [exampleProblem\<lparr>timestamp := Some 4000\<rparr>]"
    unfolding r(1) by (simp add: e)
  from give_up_archives_once [of exampleActive _ _ exampleChatAttached _ lowerUnit 4000 4001] a
  have t: "snd (handleSubmit lowerUnit 4000 4001 (exampleChatAttached, exampleActive))
      = exampleActive"
    by blast
  from give_up_archives_once [of exampleActive _ _ exampleChatWaiting _ lowerUnit 4000 4001] w
  have p: "handleSubmit lowerUnit 4000 4001 (exampleChatWaiting, exampleActive)
      = (exampleChatWaiting, exampleActive)"
    by blast
  from h e m r(2,3) a t w p show ?thesis by blast
qed

subsection \<open>One archived problem per id\<close>

lemma distinct_pid_filter:
  "distinct (map pid ms) \<Longrightarrow> distinct (map pid (filter P ms))"
  by (simp add: distinct_map_filter)

lemma pid_replace:
  "map pid (map (\<lambda>m. if pid m = pid p then p else m) ms) = map pid ms"
  by (induction ms) auto

lemma length_filter_pid:
  "distinct (map pid ms) \<Longrightarrow> i \<in> set (map pid ms) \<Longrightarrow>
     Suc (length (filter (\<lambda>m. pid m \<noteq> i) ms)) = length ms"
proof (induction ms)
  case Nil
  then show ?case by simp
next
  case (Cons m ms)
  show ?case
  proof (cases "pid m = i")
    case True
    with Cons.prems have "i \<notin> pid ` set ms" by simp
    then have "\<forall>x\<in>set ms. pid x \<noteq> i" by blast
    then have "filter (\<lambda>m. pid m \<noteq> i) ms = ms" by (simp add: filter_id_conv)
    with True show ?thesis by simp
  next
    case False
    with Cons show ?thesis by auto
  qed
qed

lemma activeMistakes_toggleMistake:
  assumes "currentProblem app = Some cp" "isStudent app"
  shows "activeMistakes (toggleMistake now app) =
     (if pid cp \<in> set (map pid (activeMistakes app))
      then filter (\<lambda>m. pid m \<noteq> pid cp) (activeMistakes app)
      else cp\<lparr>timestamp := Some now\<rparr> # activeMistakes app)"
  using assms by (simp add: toggleMistake_def list_ex_pid)

lemma distinct_toggleMistake:
  assumes "distinct (map pid (activeMistakes app))"
  shows "distinct (map pid (activeMistakes (toggleMistake now app)))"
proof (cases "currentProblem app")
  case None
  with assms show ?thesis by (simp add: toggleMistake_def)
next
  case (Some cp)
  show ?thesis
  proof (cases "isStudent app")
    case True
    with Some assms show ?thesis
      by (simp add: activeMistakes_toggleMistake distinct_pid_filter)
  next
    case False
    with Some assms show ?thesis by (simp add: toggleMistake_def)
  qed
qed

lemma distinct_saveCurrentProblem:
  assumes "distinct (map pid (activeMistakes app))"
  shows "distinct (map pid (activeMistakes (saveCurrentProblem now app)))"
proof (cases "currentProblem app")
  case None
  with assms show ?thesis by (simp add: saveCurrentProblem_def)
next
  case (Some cp)
  show ?thesis
  proof (cases "isStudent app")
    case True
    with Some assms show ?thesis
      by (simp add: activeMistakes_saveCurrentProblem)
  next
    case False
    with Some assms show ?thesis by (simp add: saveCurrentProblem_def)
  qed
qed

lemma distinct_handleSubmit:
  assumes "distinct (map pid (activeMistakes app))"
  shows "distinct (map pid (activeMistakes (snd (handleSubmit lc n1 n2 (chat, app)))))"
  using handleSubmit_app [of lc n1 n2 chat app] assms
    distinct_saveCurrentProblem [OF assms, of n1]
  by auto

lemma distinct_handleChatUpdate:
  assumes "distinct (map pid (activeMistakes app))"
  shows "distinct (map pid (activeMistakes (handleChatUpdate msgs app)))"
proof (cases "currentProblem app")
  case None
  with assms show ?thesis by (simp add: handleChatUpdate_def)
next
  case (Some cp)
  have "map pid (map (\<lambda>m. if pid m = pid (cp\<lparr>chatHistory := Some msgs\<rparr>)
      then cp\<lparr>chatHistory := Some msgs\<rparr> else m) (activeMistakes app))
      = map pid (activeMistakes app)"
    by (rule pid_replace)
  with Some assms show ?thesis
    by (simp add: handleChatUpdate_def Let_def del: map_map)
qed

lemma find_in_set: "find P xs = Some x \<Longrightarrow> x \<in> set xs"
  by (induction xs) (auto split: if_splits)

lemma distinct_getUserMistakes:
  assumes "list_all (\<lambda>d. distinct (map pid (mistakes d))) (getDBData st)"
  shows "distinct (map pid (getUserMistakes i st))"
proof (cases "find (\<lambda>d. userId d = i) (getDBData st)")
  case None
  then show ?thesis by (simp add: getUserMistakes_def)
next
  case (Some d)
  then have "d \<in> set (getDBData st)" by (rule find_in_set)
  with assms have "distinct (map pid (mistakes d))" by (simp add: list_all_iff)
  with Some show ?thesis by (simp add: getUserMistakes_def)
qed

lemma distinct_saveUserMistakes:
  assumes "list_all (\<lambda>d. distinct (map pid (mistakes d))) (getDBData st)"
    and "distinct (map pid ms)"
  shows "list_all (\<lambda>d. distinct (map pid (mistakes d))) (getDBData (saveUserMistakes i ms st))"
proof (cases "findIndex (\<lambda>d. userId d = i) (getDBData st)")
  case None
  with assms show ?thesis by (simp add: saveUserMistakes_def Let_def)
next
  case (Some k)
  let ?d = "getDBData st"
  have "set (?d[k := (?d ! k)\<lparr>mistakes := ms\<rparr>]) \<subseteq> insert ((?d ! k)\<lparr>mistakes := ms\<rparr>) (set ?d)"
    by (rule set_update_subset_insert)
  with assms have "list_all (\<lambda>d. distinct (map pid (mistakes d)))
      (?d[k := (?d ! k)\<lparr>mistakes := ms\<rparr>])"
    unfolding list_all_iff by auto
  with Some show ?thesis by (simp add: saveUserMistakes_def Let_def)
qed

lemma distinct_persistMistakes:
  assumes "list_all (\<lambda>d. distinct (map pid (mistakes d))) (getDBData st)"
    and "distinct (map pid (activeMistakes app))"
  shows "list_all (\<lambda>d. distinct (map pid (mistakes d))) (getDBData (persistMistakes app st))"
  using assms
  by (auto simp: persistMistakes_def distinct_saveUserMistakes split: option.splits)

lemma distinct_handleLoginSuccess:
  assumes "list_all (\<lambda>d. distinct (map pid (mistakes d))) (getDBData st)"
    and "distinct (map pid (activeMistakes app))"
  shows "distinct (map pid (activeMistakes (handleLoginSuccess st user prev app)))"
proof -
  have "activeMistakes (handleLoginSuccess st user prev app) = activeMistakes app
      \<or> activeMistakes (handleLoginSuccess st user prev app) = getUserMistakes (uid user) st"
    by (simp add: handleLoginSuccess_def Let_def split: option.splits)
  with assms(2) distinct_getUserMistakes [OF assms(1), of "uid user"] show ?thesis
    by auto
qed

text \<open>
  Claim C6. If the archive held in memory has at most one problem per id, it still has
  after \<open>toggleMistake\<close>, after \<open>saveCurrentProblem\<close>, after a submission in the chat
  (the auto-save path), after a chat update and after a deletion from the notebook.
  When the current problem's id is in the archive, toggling removes the archived problem
  of that id (the archive gets shorter by one), and saving it, directly or by the
  auto-save path, leaves the archive as it is. The stored archives keep the property
  when the persistence effect writes the archive, and so does the archive that a login
  loads from them.
\<close>

theorem archive_ids_stay_unique:
  assumes "distinct (map pid (activeMistakes app))"
  shows "distinct (map pid (activeMistakes (toggleMistake now app)))
    \<and> distinct (map pid (activeMistakes (saveCurrentProblem now app)))
    \<and> distinct (map pid (activeMistakes (snd (handleSubmit lc n1 n2 (chat, app)))))
    \<and> distinct (map pid (activeMistakes (handleChatUpdate msgs app)))
    \<and> distinct (map pid (activeMistakes (onDelete i app)))
    \<and> (currentProblem app = Some cp \<and> isStudent app
          \<and> pid cp \<in> set (map pid (activeMistakes app)) \<longrightarrow>
        activeMistakes (toggleMistake now app)
          = filter (\<lambda>m. pid m \<noteq> pid cp) (activeMistakes app)
        \<and> pid cp \<notin> set (map pid (activeMistakes (toggleMistake now app)))
        \<and> Suc (length (activeMistakes (toggleMistake now app)))
            = length (activeMistakes app)
        \<and> activeMistakes (saveCurrentProblem now app) = activeMistakes app
        \<and> activeMistakes (snd (handleSubmit lc n1 n2 (chat, app))) = activeMistakes app)
    \<and> (list_all (\<lambda>d. distinct (map pid (mistakes d))) (getDBData st) \<longrightarrow>
        list_all (\<lambda>d. distinct (map pid (mistakes d))) (getDBData (persistMistakes app st))
        \<and> distinct (map pid (activeMistakes (handleLoginSuccess st user prev app))))"
proof -
  have del: "distinct (map pid (activeMistakes (onDelete i app)))"
    using assms by (simp add: onDelete_def distinct_pid_filter)
  have present: "activeMistakes (toggleMistake now app)
          = filter (\<lambda>m. pid m \<noteq> pid cp) (activeMistakes app)
        \<and> pid cp \<notin> set (map pid (activeMistakes (toggleMistake now app)))
        \<and> Suc (length (activeMistakes (toggleMistake now app)))
            = length (activeMistakes app)
        \<and> activeMistakes (saveCurrentProblem now app) = activeMistakes app
        \<and> activeMistakes (snd (handleSubmit lc n1 n2 (chat, app))) = activeMistakes app"
    if h: "currentProblem app = Some cp" "isStudent app"
      "pid cp \<in> set (map pid (activeMistakes app))"
  proof -
    have t: "activeMistakes (toggleMistake now app)
        = filter (\<lambda>m. pid m \<noteq> pid cp) (activeMistakes app)"
      using h by (simp add: activeMistakes_toggleMistake)
    have l: "Suc (length (filter (\<lambda>m. pid m \<noteq> pid cp) (activeMistakes app)))
        = length (activeMistakes app)"
      using assms h(3) by (rule length_filter_pid)
    have s: "saveCurrentProblem now app = app"
      using h by (simp add: activeMistakes_saveCurrentProblem)
    have u: "snd (handleSubmit lc n1 n2 (chat, app)) = app"
      using h by (rule handleSubmit_idle)
    show ?thesis unfolding t using l s u by auto
  qed
  have stored: "list_all (\<lambda>d. distinct (map pid (mistakes d))) (getDBData (persistMistakes app st))
        \<and> distinct (map pid (activeMistakes (handleLoginSuccess st user prev app)))"
    if "list_all (\<lambda>d. distinct (map pid (mistakes d))) (getDBData st)"
    using that assms distinct_persistMistakes distinct_handleLoginSuccess by blast
  from distinct_toggleMistake [OF assms, of now] distinct_saveCurrentProblem [OF assms, of now]
    distinct_handleSubmit [OF assms, of lc n1 n2 chat]
    distinct_handleChatUpdate [OF assms, of msgs] del present stored
  show ?thesis by blast
qed

theorem archive_ids_stay_unique_witness:
  "distinct (map pid (activeMistakes exampleSaved))
   \<and> currentProblem exampleSaved = Some exampleProblem \<and> isStudent exampleSaved
   \<and> pid exampleProblem \<in> set (map pid (activeMistakes exampleSaved))
   \<and> list_all (\<lambda>d. distinct (map pid (mistakes d))) (getDBData exampleArchive)
   \<and> activeMistakes (toggleMistake 6000 exampleSaved) = []
   \<and> activeMistakes (saveCurrentProblem 6000 exampleSaved) = activeMistakes exampleSaved
   \<and> distinct (map pid (activeMistakes (snd (handleSubmit lowerUnit 6000 6001
        (exampleChat, exampleSaved)))))
   \<and> distinct (map pid (activeMistakes (handleLoginSuccess exampleArchive exampleAlice
        (Some 1000) exampleSaved)))"
proof -
  have h: "distinct (map pid (activeMistakes exampleSaved))"
    by (simp add: exampleSaved_def)
  have g: "currentProblem exampleSaved = Some exampleProblem" "isStudent exampleSaved"
    "pid exampleProblem \<in> set (map pid (activeMistakes exampleSaved))"
    by (simp_all add: exampleSaved_def exampleActive_def isStudent_def exampleAlice_def)
  have a: "list_all (\<lambda>d. distinct (map pid (mistakes d))) (getDBData exampleArchive)"
    by (simp add: exampleArchive_def getDBData_def)
  from archive_ids_stay_unique [OF h, of 6000 lowerUnit 6000 6001 exampleChat "[]" "[]"
      exampleProblem exampleArchive exampleAlice "Some 1000"] g a
  have r: "activeMistakes (toggleMistake 6000 exampleSaved)
        = filter (\<lambda>m. pid m \<noteq> pid exampleProblem) (activeMistakes exampleSaved)"
    "activeMistakes (saveCurrentProblem 6000 exampleSaved) = activeMistakes exampleSaved"
    "distinct (map pid (activeMistakes (snd (handleSubmit lowerUnit 6000 6001
        (exampleChat, exampleSaved)))))"
    "distinct (map pid (activeMistakes (handleLoginSuccess exampleArchive exampleAlice
        (Some 1000) exampleSaved)))"
    by blast+
  have e: "activeMistakes (toggleMistake 6000 exampleSaved) = []"
    unfolding r(1) by (simp add: exampleSaved_def)
  from h g a e r(2,3,4) show ?thesis by blast
qed

section \<open>Properties of the progression calculator\<close>

lemma BADGES_mono:
  assumes "c1 \<le> c2" "l1 \<le> l2" "t1 \<le> t2" "b \<in> set BADGES" "condition b c1 l1 t1"
  shows "condition b c2 l2 t2"
  using assms by (auto simp: BADGES_def)

text \<open>
  Claim C8. For counts \<open>c1 \<le> c2\<close>, \<open>l1 \<le> l2\<close> and \<open>t1 \<le> t2\<close>, every badge of the
  catalogue unlocked at \<open>(c1, l1, t1)\<close> is unlocked at \<open>(c2, l2, t2)\<close>.
\<close>

theorem unlockedBadges_mono:
  assumes "c1 \<le> c2" "l1 \<le> l2" "t1 \<le> t2"
  shows "set (unlockedBadges c1 l1 t1) \<subseteq> set (unlockedBadges c2 l2 t2)"
  using assms BADGES_mono [of c1 c2 l1 l2 t1 t2] by (auto simp: unlockedBadges_def)

theorem unlockedBadges_mono_witness:
  "(4::nat) \<le> 5 \<and> (1::nat) \<le> 2 \<and> (3::nat) \<le> 3
   \<and> map bid (unlockedBadges 4 1 3) = [[110, 101, 119, 98, 105, 101], [101, 120, 112, 108, 111, 114, 101, 114]]
   \<and> map bid (unlockedBadges 5 2 3) = [[110, 101, 119, 98, 105, 101], [101, 120, 112, 108, 111, 114, 101, 114], [115, 99, 104, 111, 108, 97, 114]]
   \<and> set (unlockedBadges 4 1 3) \<subseteq> set (unlockedBadges 5 2 3)"
  using unlockedBadges_mono [of 4 5 1 2 3 3]
  by (simp add: unlockedBadges_def BADGES_def)

end
